theory Spec2Isabelle
  imports
    Complex_Main
    "HOL-Library.Char_ord"
    "HOL-Library.List_Lexorder"
    "HOL-Library.Product_Lexorder"
begin

section \<open>Business performance tracker: the storage schema and the domain operations\<close>

text \<open>
  The program (\<^verbatim>\<open>app.py\<close>) keeps two SQLite tables, \<^verbatim>\<open>clients\<close> and
  \<^verbatim>\<open>services\<close>, and works on them through SQL statements. The embedding models a
  table as the list of its rows in insertion order, a statement as a function on the
  stored database that either raises or returns the changed database, and a domain
  operation as a function returning what was raised (if anything) together with the
  database as it is stored afterwards.

  Conventions of the model:
  \<^item> a Python \<^verbatim>\<open>str\<close> is a \<^typ>\<open>string\<close>; one \<^typ>\<open>char\<close> stands for one code point
    in the range 0..255;
  \<^item> a \<^verbatim>\<open>REAL\<close> column and a Python \<^verbatim>\<open>float\<close> are rationals, added exactly in the
    storage and query model; the binary64 addition of the code, with its rounding, is
    modelled on its own where a property depends on it; NaN is not modelled;
  \<^item> a Python \<^verbatim>\<open>int\<close> is an \<^typ>\<open>int\<close>: unbounded, so that a statement parameter
    can be too large for SQLite;
  \<^item> the clock (\<^verbatim>\<open>datetime.utcnow().isoformat()\<close>) is an argument \<open>now\<close>.
\<close>

subsection \<open>Rows and the database\<close>

text \<open>Table \<^verbatim>\<open>clients\<close> (lines 30-38); \<^verbatim>\<open>notes\<close> is the only nullable column.\<close>

record client =
  c_id :: int
  c_name :: string
  c_status :: string
  c_notes :: "string option"
  c_created_at :: string

text \<open>Table \<^verbatim>\<open>services\<close> (lines 40-50); \<^verbatim>\<open>is_active\<close> is an INTEGER column.\<close>

record service =
  s_id :: int
  s_client_id :: int
  s_service_name :: string
  s_monthly_cost :: rat
  s_is_active :: int
  s_created_at :: string

text \<open>
  The stored database: both tables and, for each, the largest row id ever handed out
  (the \<^verbatim>\<open>sqlite_sequence\<close> entry that \<^verbatim>\<open>AUTOINCREMENT\<close> maintains).
\<close>

record db =
  clients :: "client list"
  services :: "service list"
  clients_seq :: int
  services_seq :: int

text \<open>
  What \<^verbatim>\<open>sqlite3\<close> raises: a violated constraint, a full row id space, or an integer
  parameter that does not fit SQLite's 64-bit INTEGER.
\<close>

datatype error = IntegrityError | OperationalError | OverflowError

text \<open>
  \<^verbatim>\<open>init_db\<close>: \<^verbatim>\<open>CREATE TABLE IF NOT EXISTS\<close> creates the empty tables in a new
  file (\<open>None\<close>) and leaves an existing database as it is.
\<close>

definition init_db :: "db option \<Rightarrow> db" where
  "init_db existing =
     (case existing of
        None \<Rightarrow> \<lparr>clients = [], services = [], clients_seq = 0, services_seq = 0\<rparr>
      | Some d \<Rightarrow> d)"

subsection \<open>Strings\<close>

text \<open>
  \<^verbatim>\<open>str.strip()\<close> removes leading and trailing whitespace. Among the code points
  below 256, Python's whitespace is 9..13, 28..32, 133 and 160.
\<close>

definition is_space :: "char \<Rightarrow> bool" where
  "is_space c =
     (let n = (of_char c :: nat)
      in (9 \<le> n \<and> n \<le> 13) \<or> (28 \<le> n \<and> n \<le> 32) \<or> n = 133 \<or> n = 160)"

definition strip :: "string \<Rightarrow> string" where
  "strip s = rev (dropWhile is_space (rev (dropWhile is_space s)))"

subsection \<open>The schema's constraints\<close>

text \<open>\<^verbatim>\<open>CHECK(status IN ('Active','Inactive','Prospect'))\<close>\<close>

definition status_check :: "string \<Rightarrow> bool" where
  "status_check st = (st = ''Active'' \<or> st = ''Inactive'' \<or> st = ''Prospect'')"

text \<open>\<^verbatim>\<open>CHECK(monthly_cost >= 0)\<close>\<close>

definition monthly_cost_check :: "rat \<Rightarrow> bool" where
  "monthly_cost_check cost = (cost \<ge> 0)"

text \<open>\<^verbatim>\<open>CHECK(is_active IN (0,1))\<close>\<close>

definition is_active_check :: "int \<Rightarrow> bool" where
  "is_active_check a = (a = 0 \<or> a = 1)"

text \<open>
  \<^verbatim>\<open>INTEGER PRIMARY KEY AUTOINCREMENT\<close>: the new row id is one more than the largest
  id the table holds or has ever held; when that is the largest 64-bit integer the
  insert fails.
\<close>

definition max_rowid :: int where
  "max_rowid = 9223372036854775807"

definition new_rowid :: "int \<Rightarrow> int list \<Rightarrow> error + int" where
  "new_rowid seq ids =
     (let v = fold max ids seq
      in if v = max_rowid then Inl OperationalError else Inr (v + 1))"

text \<open>
  SQLite's INTEGER is a signed 64-bit integer. \<^verbatim>\<open>cur.execute\<close> binds the parameters
  before the statement runs, and binding a Python \<^verbatim>\<open>int\<close> outside that range raises
  \<^verbatim>\<open>OverflowError\<close>; the statement is then not run at all.
\<close>

definition sqlite_int :: "int \<Rightarrow> bool" where
  "sqlite_int i = (- 9223372036854775808 \<le> i \<and> i \<le> 9223372036854775807)"

definition bind_int :: "int \<Rightarrow> (int \<Rightarrow> db \<Rightarrow> error + db) \<Rightarrow> db \<Rightarrow> error + db" where
  "bind_int i stmt d = (if sqlite_int i then stmt i d else Inl OverflowError)"

subsection \<open>The SQL statements of the program\<close>

text \<open>
  Each statement runs on the database as the connection sees it and returns \<open>Inl\<close>
  when \<^verbatim>\<open>cur.execute\<close> raises (the statement then has changed nothing) and \<open>Inr\<close>
  with the changed database otherwise. A \<^verbatim>\<open>CHECK\<close> constraint is evaluated on the
  rows a statement writes, so an \<^verbatim>\<open>UPDATE\<close> whose \<^verbatim>\<open>WHERE\<close> matches no row
  violates nothing.
\<close>

text \<open>\<^verbatim>\<open>INSERT INTO clients (name, status, notes, created_at) VALUES (?,?,?,?)\<close>\<close>

definition insert_client :: "string \<Rightarrow> string \<Rightarrow> string \<Rightarrow> string \<Rightarrow> db \<Rightarrow> error + db" where
  "insert_client nm st nt now d =
     (case new_rowid (clients_seq d) (map c_id (clients d)) of
        Inl e \<Rightarrow> Inl e
      | Inr i \<Rightarrow>
          if \<not> status_check st then Inl IntegrityError
          else Inr (d\<lparr>clients := clients d @
                        [\<lparr>c_id = i, c_name = nm, c_status = st, c_notes = Some nt,
                          c_created_at = now\<rparr>],
                      clients_seq := i\<rparr>))"

text \<open>\<^verbatim>\<open>UPDATE clients SET name=?, status=?, notes=? WHERE id=?\<close>\<close>

definition update_client :: "string \<Rightarrow> string \<Rightarrow> string \<Rightarrow> int \<Rightarrow> db \<Rightarrow> error + db" where
  "update_client nm st nt i d =
     (if (\<exists>c \<in> set (clients d). c_id c = i) \<and> \<not> status_check st then Inl IntegrityError
      else Inr (d\<lparr>clients :=
                    map (\<lambda>c. if c_id c = i
                              then c\<lparr>c_name := nm, c_status := st, c_notes := Some nt\<rparr>
                              else c)
                      (clients d)\<rparr>))"

text \<open>
  \<^verbatim>\<open>DELETE FROM clients WHERE id=?\<close>, on a connection with
  \<^verbatim>\<open>PRAGMA foreign_keys = ON\<close>: every deleted client row takes with it the services
  that reference it (\<^verbatim>\<open>ON DELETE CASCADE\<close>).
\<close>

definition delete_from_clients :: "int \<Rightarrow> db \<Rightarrow> error + db" where
  "delete_from_clients i d =
     (let gone = filter (\<lambda>c. c_id c = i) (clients d)
      in Inr (d\<lparr>clients := filter (\<lambda>c. c_id c \<noteq> i) (clients d),
                  services := filter (\<lambda>s. s_client_id s \<notin> set (map c_id gone)) (services d)\<rparr>))"

text \<open>
  \<^verbatim>\<open>INSERT INTO services (client_id, service_name, monthly_cost, is_active, created_at)
  VALUES (?,?,?,?,?)\<close>: the \<^verbatim>\<open>CHECK\<close> constraints first, the foreign key when the
  statement ends.
\<close>

definition insert_service :: "int \<Rightarrow> string \<Rightarrow> rat \<Rightarrow> int \<Rightarrow> string \<Rightarrow> db \<Rightarrow> error + db" where
  "insert_service cid nm cost act now d =
     (case new_rowid (services_seq d) (map s_id (services d)) of
        Inl e \<Rightarrow> Inl e
      | Inr i \<Rightarrow>
          if \<not> monthly_cost_check cost \<or> \<not> is_active_check act then Inl IntegrityError
          else if \<not> (\<exists>c \<in> set (clients d). c_id c = cid) then Inl IntegrityError
          else Inr (d\<lparr>services := services d @
                        [\<lparr>s_id = i, s_client_id = cid, s_service_name = nm,
                          s_monthly_cost = cost, s_is_active = act, s_created_at = now\<rparr>],
                      services_seq := i\<rparr>))"

text \<open>
  \<^verbatim>\<open>UPDATE services SET service_name=?, monthly_cost=?, is_active=? WHERE id=?\<close>:
  first what the statement does to the rows of the table, then the statement with its
  constraints.
\<close>

definition set_service_fields :: "string \<Rightarrow> rat \<Rightarrow> int \<Rightarrow> int \<Rightarrow> service list \<Rightarrow> service list" where
  "set_service_fields nm cost act i ss =
     map (\<lambda>s. if s_id s = i
               then s\<lparr>s_service_name := nm, s_monthly_cost := cost, s_is_active := act\<rparr>
               else s) ss"

definition update_service :: "string \<Rightarrow> rat \<Rightarrow> int \<Rightarrow> int \<Rightarrow> db \<Rightarrow> error + db" where
  "update_service nm cost act i d =
     (if (\<exists>s \<in> set (services d). s_id s = i) \<and>
         (\<not> monthly_cost_check cost \<or> \<not> is_active_check act)
      then Inl IntegrityError
      else Inr (d\<lparr>services := set_service_fields nm cost act i (services d)\<rparr>))"

text \<open>\<^verbatim>\<open>DELETE FROM services WHERE id=?\<close>\<close>

definition delete_from_services :: "int \<Rightarrow> db \<Rightarrow> error + db" where
  "delete_from_services i d = Inr (d\<lparr>services := filter (\<lambda>s. s_id s \<noteq> i) (services d)\<rparr>)"

subsection \<open>DB helpers\<close>

text \<open>
  \<^verbatim>\<open>exec_sql\<close>: a fresh connection, one statement, \<^verbatim>\<open>commit\<close>, \<^verbatim>\<open>close\<close>. When
  the statement raises, the exception leaves the function before the commit and the
  stored database is what it was.
\<close>

definition exec_sql :: "(db \<Rightarrow> error + db) \<Rightarrow> db \<Rightarrow> error option \<times> db" where
  "exec_sql stmt d = (case stmt d of Inl e \<Rightarrow> (Some e, d) | Inr d' \<Rightarrow> (None, d'))"

subsection \<open>Domain logic\<close>

definition upsert_client ::
  "int option \<Rightarrow> string \<Rightarrow> string \<Rightarrow> string \<Rightarrow> string \<Rightarrow> db \<Rightarrow> error option \<times> db" where
  "upsert_client client_id nm st nt now d =
     (case client_id of
        None \<Rightarrow> exec_sql (insert_client (strip nm) st (strip nt) now) d
      | Some i \<Rightarrow> exec_sql (bind_int i (update_client (strip nm) st (strip nt))) d)"

definition delete_client :: "int \<Rightarrow> db \<Rightarrow> error option \<times> db" where
  "delete_client client_id d = exec_sql (bind_int client_id delete_from_clients) d"

definition add_service ::
  "int \<Rightarrow> string \<Rightarrow> rat \<Rightarrow> bool \<Rightarrow> string \<Rightarrow> db \<Rightarrow> error option \<times> db" where
  "add_service client_id service_name monthly_cost is_active now d =
     exec_sql (bind_int client_id
                 (\<lambda>i. insert_service i (strip service_name) monthly_cost
                        (if is_active then 1 else 0) now)) d"

text \<open>A row of the edited frame: the columns \<^verbatim>\<open>id, service_name, monthly_cost, is_active\<close>.\<close>

record edited_row =
  e_id :: int
  e_service_name :: string
  e_monthly_cost :: rat
  e_is_active :: bool

text \<open>
  The loop of \<^verbatim>\<open>update_services_bulk\<close>: one \<^verbatim>\<open>cur.execute\<close> per row, all on the
  same connection and so inside one transaction; the first statement that raises ends
  the loop.
\<close>

fun update_rows :: "edited_row list \<Rightarrow> db \<Rightarrow> error + db" where
  "update_rows [] d = Inr d"
| "update_rows (r # rs) d =
     (case bind_int (e_id r)
             (update_service (strip (e_service_name r)) (e_monthly_cost r)
                (if e_is_active r then 1 else 0)) d of
        Inl e \<Rightarrow> Inl e
      | Inr d' \<Rightarrow> update_rows rs d')"

text \<open>
  \<^verbatim>\<open>update_services_bulk\<close>: the only \<^verbatim>\<open>conn.commit()\<close> follows the loop. An
  exception in the loop leaves the function before it, and the open transaction is
  rolled back when the connection goes away.
\<close>

definition update_services_bulk :: "edited_row list \<Rightarrow> db \<Rightarrow> error option \<times> db" where
  "update_services_bulk edited d =
     (case update_rows edited d of Inl e \<Rightarrow> (Some e, d) | Inr d' \<Rightarrow> (None, d'))"

definition delete_service :: "int \<Rightarrow> db \<Rightarrow> error option \<times> db" where
  "delete_service service_id d = exec_sql (bind_int service_id delete_from_services) d"

subsection \<open>Revenue aggregation\<close>

text \<open>A row of the frame that \<^verbatim>\<open>client_monthly_revenue_breakdown\<close> returns.\<close>

record breakdown_row =
  b_client_id :: int
  b_name :: string
  b_status :: string
  b_monthly_revenue :: rat

text \<open>
  \<^verbatim>\<open>FROM clients c LEFT JOIN services s ON s.client_id = c.id\<close>: every client with
  each of its services, or once with a NULL service row when it has none.
\<close>

definition join_rows :: "service list \<Rightarrow> client \<Rightarrow> (client \<times> service option) list" where
  "join_rows ss c =
     (case filter (\<lambda>s. s_client_id s = c_id c) ss of
        [] \<Rightarrow> [(c, None)]
      | ms \<Rightarrow> map (\<lambda>s. (c, Some s)) ms)"

definition left_join :: "client list \<Rightarrow> service list \<Rightarrow> (client \<times> service option) list" where
  "left_join cs ss = concat (map (join_rows ss) cs)"

text \<open>
  \<^verbatim>\<open>CASE WHEN s.is_active = 1 THEN s.monthly_cost ELSE 0 END\<close>; on the NULL service
  row the comparison is not true and the value is 0.
\<close>

definition case_active :: "service option \<Rightarrow> rat" where
  "case_active so =
     (case so of None \<Rightarrow> 0 | Some s \<Rightarrow> if s_is_active s = 1 then s_monthly_cost s else 0)"

text \<open>\<^verbatim>\<open>SUM\<close> is NULL over no rows; \<^verbatim>\<open>COALESCE(x, 0)\<close> replaces NULL by 0.\<close>

definition sql_sum :: "rat list \<Rightarrow> rat option" where
  "sql_sum xs = (case xs of [] \<Rightarrow> None | _ \<Rightarrow> Some (sum_list xs))"

definition coalesce :: "rat option \<Rightarrow> rat \<Rightarrow> rat" where
  "coalesce x y = (case x of None \<Rightarrow> y | Some v \<Rightarrow> v)"

text \<open>\<^verbatim>\<open>GROUP BY c.id, c.name, c.status\<close>\<close>

definition client_key :: "client \<Rightarrow> int \<times> string \<times> string" where
  "client_key c = (c_id c, c_name c, c_status c)"

definition group_key :: "client \<times> service option \<Rightarrow> int \<times> string \<times> string" where
  "group_key j = client_key (fst j)"

definition aggregate ::
  "(client \<times> service option) list \<Rightarrow> int \<times> string \<times> string \<Rightarrow> breakdown_row" where
  "aggregate joined k =
     \<lparr>b_client_id = fst k, b_name = fst (snd k), b_status = snd (snd k),
      b_monthly_revenue =
        coalesce (sql_sum (map (\<lambda>j. case_active (snd j))
                             (filter (\<lambda>j. group_key j = k) joined))) 0\<rparr>"

text \<open>
  The query of \<^verbatim>\<open>client_monthly_revenue_breakdown\<close>: join, one output row per group,
  \<^verbatim>\<open>ORDER BY c.status, c.name\<close> (byte-wise comparison). SQL leaves the order of rows
  with equal status and name open; the model keeps them in table order.
\<close>

definition client_monthly_revenue_breakdown :: "db \<Rightarrow> breakdown_row list" where
  "client_monthly_revenue_breakdown d =
     (let joined = left_join (clients d) (services d)
      in sort_key (\<lambda>r. (b_status r, b_name r))
           (map (aggregate joined) (remdups (map group_key joined))))"

text \<open>\<^verbatim>\<open>df.loc[df["status"] == st, "monthly_revenue"].sum()\<close>\<close>

definition status_sum :: "string \<Rightarrow> breakdown_row list \<Rightarrow> rat" where
  "status_sum st df = sum_list (map b_monthly_revenue (filter (\<lambda>r. b_status r = st) df))"

text \<open>Returns \<^verbatim>\<open>active_mrr, prospect_mrr, total_potential, inactive_mrr\<close>.\<close>

definition totals_for_dashboard :: "db \<Rightarrow> rat \<times> rat \<times> rat \<times> rat" where
  "totals_for_dashboard d =
     (let df = client_monthly_revenue_breakdown d;
          active_mrr = status_sum ''Active'' df;
          prospect_mrr = status_sum ''Prospect'' df;
          inactive_mrr = status_sum ''Inactive'' df;
          total_potential = active_mrr + prospect_mrr
      in (active_mrr, prospect_mrr, total_potential, inactive_mrr))"

subsection \<open>The client form\<close>

text \<open>
  What the page does when the client form is submitted (lines 211-217): a name that is
  blank after stripping is reported and nothing is saved; otherwise
  \<^verbatim>\<open>upsert_client\<close> is called, and an exception it raises ends the run.
\<close>

datatype form_outcome = Blank_name | Saved | Raised error

definition client_form_submitted ::
  "int option \<Rightarrow> string \<Rightarrow> string \<Rightarrow> string \<Rightarrow> string \<Rightarrow> db \<Rightarrow> form_outcome \<times> db" where
  "client_form_submitted selected_id nm st nt now d =
     (if strip nm = [] then (Blank_name, d)
      else case upsert_client selected_id nm st nt now d of
             (None, d') \<Rightarrow> (Saved, d')
           | (Some e, d') \<Rightarrow> (Raised e, d'))"

subsection \<open>Reachable databases\<close>

text \<open>
  The databases the program can store: the one \<^verbatim>\<open>init_db\<close> creates in a new file,
  and what any domain operation leaves behind, whatever its arguments and whether it
  raised or not.
\<close>

inductive reachable :: "db \<Rightarrow> bool" where
  r_init: "reachable (init_db None)"
| r_upsert_client: "reachable d \<Longrightarrow> reachable (snd (upsert_client client_id nm st nt now d))"
| r_delete_client: "reachable d \<Longrightarrow> reachable (snd (delete_client client_id d))"
| r_add_service:
    "reachable d \<Longrightarrow> reachable (snd (add_service client_id nm cost act now d))"
| r_update_services_bulk: "reachable d \<Longrightarrow> reachable (snd (update_services_bulk edited d))"
| r_delete_service: "reachable d \<Longrightarrow> reachable (snd (delete_service service_id d))"

text \<open>
  The constraints of the schema as a predicate on databases: the primary keys, the three
  \<^verbatim>\<open>CHECK\<close>s and the foreign key.
\<close>

definition schema_ok :: "db \<Rightarrow> bool" where
  "schema_ok d =
     (distinct (map c_id (clients d)) \<and> distinct (map s_id (services d)) \<and>
      list_all (\<lambda>c. status_check (c_status c)) (clients d) \<and>
      list_all (\<lambda>s. monthly_cost_check (s_monthly_cost s) \<and> is_active_check (s_is_active s) \<and>
                    s_client_id s \<in> set (map c_id (clients d)))
        (services d))"


text \<open>
  The scenario of the specification, built by the operations themselves: client Acme
  (Active) with the services Hosting (100, active) and Old Plan (50, inactive).
\<close>

definition acme_db :: db where
  "acme_db =
     snd (add_service 1 ''Old Plan'' 50 False ''2024-01-03''
       (snd (add_service 1 ''Hosting'' 100 True ''2024-01-02''
         (snd (upsert_client None ''Acme'' ''Active'' '''' ''2024-01-01'' (init_db None))))))"

text \<open>
  A second scenario: Acme as above, Beta (Prospect) with SEO (30, active) and Gamma
  (Inactive) with Audit (20, active).
\<close>

definition portfolio_db :: db where
  "portfolio_db =
     snd (add_service 3 ''Audit'' 20 True ''2024-01-07''
       (snd (upsert_client None ''Gamma'' ''Inactive'' '''' ''2024-01-06''
         (snd (add_service 2 ''SEO'' 30 True ''2024-01-05''
           (snd (upsert_client None ''Beta'' ''Prospect'' '''' ''2024-01-04'' acme_db)))))))"

subsection \<open>The breakdown in the words of the specification\<close>

text \<open>
  The specification describes the breakdown client by client: the monthly revenue of a
  client is the sum of \<^verbatim>\<open>monthly_cost\<close> over the services that reference it and are
  active, and its row carries the client's id, name and status. These two definitions
  follow that wording; the query above is compared with them.
\<close>

definition active_revenue :: "service list \<Rightarrow> int \<Rightarrow> rat" where
  "active_revenue ss i =
     sum_list (map s_monthly_cost (filter (\<lambda>s. s_client_id s = i \<and> s_is_active s = 1) ss))"

definition client_row :: "service list \<Rightarrow> client \<Rightarrow> breakdown_row" where
  "client_row ss c =
     \<lparr>b_client_id = c_id c, b_name = c_name c, b_status = c_status c,
      b_monthly_revenue = active_revenue ss (c_id c)\<rparr>"

subsection \<open>Binary64 arithmetic\<close>

text \<open>
  The amounts are IEEE binary64 numbers (\<^verbatim>\<open>REAL\<close>, \<^verbatim>\<open>float\<close>), and a finite one is
  the rational it denotes. The definitions above add amounts exactly. The ones below are
  the addition the code performs: the exact sum rounded to the nearest binary64 value,
  ties to the even significand, with 53 significant bits, exponents down to the
  subnormal \<open>2\<^sup>-\<^sup>1\<^sup>0\<^sup>7\<^sup>4\<close>, and \<open>None\<close> when the result is an infinity (the rounded
  value reaches \<open>2\<^sup>1\<^sup>0\<^sup>2\<^sup>4\<close>).
\<close>

fun log2_floor :: "nat \<Rightarrow> nat" where
  "log2_floor n = (if n < 2 then 0 else Suc (log2_floor (n div 2)))"

declare log2_floor.simps [simp del]

definition bit_length :: "nat \<Rightarrow> nat" where
  "bit_length n = (if n = 0 then 0 else Suc (log2_floor n))"

definition pow2 :: "int \<Rightarrow> rat" where
  "pow2 k = (if 0 \<le> k then 2 ^ nat k else 1 / 2 ^ nat (- k))"

text \<open>For \<open>q > 0\<close>, the largest \<open>k\<close> with \<open>2\<^sup>k \<le> q\<close>.\<close>

definition ilog2 :: "rat \<Rightarrow> int" where
  "ilog2 q =
     (if 1 \<le> q then int (log2_floor (nat \<lfloor>q\<rfloor>))
      else - int (bit_length (nat (\<lceil>1 / q\<rceil> - 1))))"

definition round_half_even :: "rat \<Rightarrow> int" where
  "round_half_even q =
     (let f = \<lfloor>q\<rfloor>; r = q - of_int f
      in if r < 1 / 2 then f else if 1 / 2 < r then f + 1 else if even f then f else f + 1)"

definition f64_round :: "rat \<Rightarrow> rat option" where
  "f64_round q =
     (if q = 0 then Some 0
      else let e = max (ilog2 \<bar>q\<bar> - 52) (- 1074);
               r = of_int (round_half_even (q / pow2 e)) * pow2 e
           in if r = 0 \<or> ilog2 \<bar>r\<bar> < 1024 then Some r else None)"

text \<open>Python's \<^verbatim>\<open>x + y\<close> on finite floats.\<close>

definition f64_add :: "rat \<Rightarrow> rat \<Rightarrow> rat option" where
  "f64_add x y = f64_round (x + y)"

text \<open>
  A running sum from \<^verbatim>\<open>0.0\<close>, left to right: the value of the Python expression
  \<^verbatim>\<open>x1 + x2 + ... + xn\<close> and of a sum over a short float column.
\<close>

definition f64_sum :: "rat list \<Rightarrow> rat option" where
  "f64_sum xs = fold (\<lambda>x acc. Option.bind acc (\<lambda>s. f64_add s x)) xs (Some 0)"




section \<open>Properties\<close>

subsection \<open>Evaluation rules and the scenarios\<close>

lemmas op_defs = upsert_client_def add_service_def delete_client_def delete_service_def
  update_services_bulk_def exec_sql_def

lemmas stmt_defs = insert_client_def update_client_def delete_from_clients_def
  insert_service_def update_service_def delete_from_services_def set_service_fields_def
  new_rowid_def max_rowid_def bind_int_def sqlite_int_def

lemmas check_defs = status_check_def monthly_cost_check_def is_active_check_def

lemmas str_defs = strip_def is_space_def

lemma acme_db_eq:
  "acme_db =
     \<lparr>clients = [\<lparr>c_id = 1, c_name = ''Acme'', c_status = ''Active'', c_notes = Some '''',
                   c_created_at = ''2024-01-01''\<rparr>],
      services = [\<lparr>s_id = 1, s_client_id = 1, s_service_name = ''Hosting'',
                    s_monthly_cost = 100, s_is_active = 1, s_created_at = ''2024-01-02''\<rparr>,
                  \<lparr>s_id = 2, s_client_id = 1, s_service_name = ''Old Plan'',
                    s_monthly_cost = 50, s_is_active = 0, s_created_at = ''2024-01-03''\<rparr>],
      clients_seq = 1, services_seq = 2\<rparr>"
  by (simp add: acme_db_def init_db_def op_defs stmt_defs check_defs str_defs)

lemma portfolio_db_eq:
  "portfolio_db =
     \<lparr>clients = [\<lparr>c_id = 1, c_name = ''Acme'', c_status = ''Active'', c_notes = Some '''',
                   c_created_at = ''2024-01-01''\<rparr>,
                 \<lparr>c_id = 2, c_name = ''Beta'', c_status = ''Prospect'', c_notes = Some '''',
                   c_created_at = ''2024-01-04''\<rparr>,
                 \<lparr>c_id = 3, c_name = ''Gamma'', c_status = ''Inactive'', c_notes = Some '''',
                   c_created_at = ''2024-01-06''\<rparr>],
      services = [\<lparr>s_id = 1, s_client_id = 1, s_service_name = ''Hosting'',
                    s_monthly_cost = 100, s_is_active = 1, s_created_at = ''2024-01-02''\<rparr>,
                  \<lparr>s_id = 2, s_client_id = 1, s_service_name = ''Old Plan'',
                    s_monthly_cost = 50, s_is_active = 0, s_created_at = ''2024-01-03''\<rparr>,
                  \<lparr>s_id = 3, s_client_id = 2, s_service_name = ''SEO'',
                    s_monthly_cost = 30, s_is_active = 1, s_created_at = ''2024-01-05''\<rparr>,
                  \<lparr>s_id = 4, s_client_id = 3, s_service_name = ''Audit'',
                    s_monthly_cost = 20, s_is_active = 1, s_created_at = ''2024-01-07''\<rparr>],
      clients_seq = 3, services_seq = 4\<rparr>"
  by (simp add: portfolio_db_def acme_db_eq op_defs stmt_defs check_defs str_defs)

lemma reachable_acme_db: "reachable acme_db"
  unfolding acme_db_def by (intro reachable.intros)

lemma reachable_portfolio_db: "reachable portfolio_db"
  unfolding portfolio_db_def by (intro reachable.intros reachable_acme_db)

subsection \<open>Lists and row ids\<close>

lemma map_if_absent: "\<forall>x \<in> set xs. \<not> P x \<Longrightarrow> map (\<lambda>x. if P x then f x else x) xs = xs"
  by (induction xs) auto

lemma fold_max_ge_init: "(s::int) \<le> fold max ids s"
  by (induction ids arbitrary: s) (auto intro: order_trans [OF max.cobounded2])

lemma fold_max_ge_mem: "(x::int) \<in> set ids \<Longrightarrow> x \<le> fold max ids s"
proof (induction ids arbitrary: s)
  case Nil
  then show ?case by simp
next
  case (Cons a ids)
  then show ?case
    using fold_max_ge_init [of "max a s" ids] by auto
qed

lemma new_rowid_fresh: "new_rowid s ids = Inr i \<Longrightarrow> i \<notin> set ids"
  using fold_max_ge_mem [of i ids s] by (auto simp: new_rowid_def Let_def split: if_splits)

lemma set_service_fields_ids [simp]:
  "map s_id (set_service_fields nm cost act i ss) = map s_id ss"
  by (simp add: set_service_fields_def)



lemma bind_int_Inr: "bind_int i stmt d = Inr d' \<Longrightarrow> stmt i d = Inr d'"
  by (simp add: bind_int_def split: if_splits)

lemma exec_sql_preserves:
  assumes "P d" and "\<And>d'. stmt d = Inr d' \<Longrightarrow> P d'"
  shows "P (snd (exec_sql stmt d))"
  using assms by (auto simp: exec_sql_def split: sum.splits)

subsection \<open>The schema's constraints hold in every reachable database\<close>

lemma schema_ok_init_db: "schema_ok (init_db None)"
  by (simp add: schema_ok_def init_db_def)

lemma schema_ok_insert_client:
  assumes "schema_ok d" and "insert_client nm st nt now d = Inr d'"
  shows "schema_ok d'"
proof -
  obtain i where i: "new_rowid (clients_seq d) (map c_id (clients d)) = Inr i"
    and st: "status_check st"
    and d': "d' = d\<lparr>clients := clients d @
               [\<lparr>c_id = i, c_name = nm, c_status = st, c_notes = Some nt, c_created_at = now\<rparr>],
             clients_seq := i\<rparr>"
    using assms(2) by (auto simp: insert_client_def split: sum.splits if_splits)
  have "i \<notin> set (map c_id (clients d))" using i by (rule new_rowid_fresh)
  then show ?thesis
    using assms(1) st by (auto simp: schema_ok_def d' list_all_iff)
qed

lemma schema_ok_update_client:
  assumes "schema_ok d" and "update_client nm st nt i d = Inr d'"
  shows "schema_ok d'"
proof -
  let ?f = "\<lambda>c. if c_id c = i then c\<lparr>c_name := nm, c_status := st, c_notes := Some nt\<rparr> else c"
  have d': "d' = d\<lparr>clients := map ?f (clients d)\<rparr>"
    and st: "(\<exists>c \<in> set (clients d). c_id c = i) \<longrightarrow> status_check st"
    using assms(2) by (auto simp: update_client_def split: if_splits)
  have ids: "map (c_id \<circ> ?f) (clients d) = map c_id (clients d)"
    by (rule map_cong) auto
  show ?thesis
    using assms(1) st by (auto simp: schema_ok_def d' ids list_all_iff)
qed

lemma schema_ok_delete_from_clients:
  assumes "schema_ok d" and "delete_from_clients i d = Inr d'"
  shows "schema_ok d'"
proof -
  have d': "d' = d\<lparr>clients := filter (\<lambda>c. c_id c \<noteq> i) (clients d),
                    services := filter (\<lambda>s. s_client_id s \<notin>
                         set (map c_id (filter (\<lambda>c. c_id c = i) (clients d)))) (services d)\<rparr>"
    using assms(2) by (simp add: delete_from_clients_def)
  have fk: "s_client_id s \<in> set (map c_id (filter (\<lambda>c. c_id c \<noteq> i) (clients d)))"
    if "s \<in> set (services d)"
      and "s_client_id s \<notin> set (map c_id (filter (\<lambda>c. c_id c = i) (clients d)))" for s
  proof -
    have "s_client_id s \<in> set (map c_id (clients d))"
      using assms(1) that(1) by (simp add: schema_ok_def list_all_iff)
    then obtain c where c: "c \<in> set (clients d)" "c_id c = s_client_id s"
      by auto
    then have "c_id c \<noteq> i" using that(2) by force
    with c show ?thesis by force
  qed
  show ?thesis
    using assms(1) fk by (auto simp: schema_ok_def d' list_all_iff distinct_map_filter)
qed

lemma schema_ok_insert_service:
  assumes "schema_ok d" and "insert_service cid nm cost act now d = Inr d'"
  shows "schema_ok d'"
proof -
  obtain i where i: "new_rowid (services_seq d) (map s_id (services d)) = Inr i"
    and ck: "monthly_cost_check cost" "is_active_check act" "cid \<in> set (map c_id (clients d))"
    and d': "d' = d\<lparr>services := services d @
               [\<lparr>s_id = i, s_client_id = cid, s_service_name = nm, s_monthly_cost = cost,
                 s_is_active = act, s_created_at = now\<rparr>],
             services_seq := i\<rparr>"
    using assms(2) by (auto simp: insert_service_def split: sum.splits if_splits)
  have "i \<notin> set (map s_id (services d))" using i by (rule new_rowid_fresh)
  then show ?thesis
    using assms(1) ck by (auto simp: schema_ok_def d' list_all_iff)
qed

lemma schema_ok_update_service:
  assumes "schema_ok d" and "update_service nm cost act i d = Inr d'"
  shows "schema_ok d'"
proof -
  have d': "d' = d\<lparr>services := set_service_fields nm cost act i (services d)\<rparr>"
    and ck: "(\<exists>s \<in> set (services d). s_id s = i) \<longrightarrow>
               monthly_cost_check cost \<and> is_active_check act"
    using assms(2) by (auto simp: update_service_def split: if_splits)
  have "list_all (\<lambda>s. monthly_cost_check (s_monthly_cost s) \<and> is_active_check (s_is_active s) \<and>
                    s_client_id s \<in> set (map c_id (clients d)))
          (set_service_fields nm cost act i (services d))"
    using assms(1) ck by (auto simp: schema_ok_def set_service_fields_def list_all_iff)
  then show ?thesis
    using assms(1) by (simp add: schema_ok_def d')
qed

lemma schema_ok_update_rows:
  "schema_ok d \<Longrightarrow> update_rows edited d = Inr d' \<Longrightarrow> schema_ok d'"
proof (induction edited arbitrary: d)
  case Nil
  then show ?case by simp
next
  case (Cons r rs)
  then show ?case
    by (auto split: sum.splits dest!: bind_int_Inr dest: schema_ok_update_service)
qed

lemma schema_ok_delete_from_services:
  assumes "schema_ok d" and "delete_from_services i d = Inr d'"
  shows "schema_ok d'"
  using assms
  by (auto simp: schema_ok_def delete_from_services_def list_all_iff distinct_map_filter)

lemma reachable_schema_ok: "reachable d \<Longrightarrow> schema_ok d"
proof (induction rule: reachable.induct)
  case r_init
  show ?case by (rule schema_ok_init_db)
next
  case (r_upsert_client d client_id nm st nt now)
  then show ?case
    by (cases client_id)
      (auto simp: upsert_client_def intro!: exec_sql_preserves [where P = schema_ok]
        dest!: bind_int_Inr
        elim: schema_ok_insert_client schema_ok_update_client)
next
  case (r_delete_client d client_id)
  then show ?case
    by (auto simp: delete_client_def intro!: exec_sql_preserves [where P = schema_ok]
        dest!: bind_int_Inr
        elim: schema_ok_delete_from_clients)
next
  case (r_add_service d client_id nm cost act now)
  then show ?case
    by (auto simp: add_service_def intro!: exec_sql_preserves [where P = schema_ok]
        dest!: bind_int_Inr elim: schema_ok_insert_service)
next
  case (r_update_services_bulk d edited)
  then show ?case
    by (auto simp: update_services_bulk_def split: sum.splits elim: schema_ok_update_rows)
next
  case (r_delete_service d service_id)
  then show ?case
    by (auto simp: delete_service_def intro!: exec_sql_preserves [where P = schema_ok]
        dest!: bind_int_Inr
        elim: schema_ok_delete_from_services)
qed



subsection \<open>Row ids stay within 64 bits in every reachable database\<close>










subsection \<open>Writes that name no row\<close>

text \<open>
  Claim C8, as stated, fails for ids that SQLite cannot hold. The id \<open>2\<^sup>6\<^sup>3\<close> is in
  neither table of the Acme database, yet \<^verbatim>\<open>delete_client\<close>, \<^verbatim>\<open>delete_service\<close> and
  \<^verbatim>\<open>upsert_client\<close> with it raise \<^verbatim>\<open>OverflowError\<close> (and change nothing).
\<close>

theorem out_of_range_id_counterexample:
  "delete_client 9223372036854775808 acme_db = (Some OverflowError, acme_db) \<and>
   delete_service 9223372036854775808 acme_db = (Some OverflowError, acme_db) \<and>
   upsert_client (Some 9223372036854775808) ''Zenith'' ''Active'' '''' ''2024-02-01'' acme_db =
     (Some OverflowError, acme_db)"
  by (simp add: upsert_client_def delete_client_def delete_service_def exec_sql_def
      bind_int_def sqlite_int_def)

text \<open>
  Claim C8, amended. When the id is in neither table, \<^verbatim>\<open>upsert_client\<close> with that id,
  \<^verbatim>\<open>delete_client\<close> and \<^verbatim>\<open>delete_service\<close> leave the stored database exactly as it
  was, whatever the other arguments are; they raise nothing when the id is a signed
  64-bit integer, and \<^verbatim>\<open>OverflowError\<close> when it is not.
\<close>

theorem absent_id_is_noop:
  assumes "cid \<notin> set (map c_id (clients d))" and "sid \<notin> set (map s_id (services d))"
  shows "upsert_client (Some cid) nm st nt now d =
           (if sqlite_int cid then None else Some OverflowError, d) \<and>
         delete_client cid d = (if sqlite_int cid then None else Some OverflowError, d) \<and>
         delete_service sid d = (if sqlite_int sid then None else Some OverflowError, d)"
proof -
  have c: "\<forall>c \<in> set (clients d). c_id c \<noteq> cid" using assms(1) by auto
  have s: "\<forall>s \<in> set (services d). s_id s \<noteq> sid" using assms(2) by auto
  have "update_client (strip nm) st (strip nt) cid d = Inr d"
    using c by (simp add: update_client_def map_if_absent)
  then have "upsert_client (Some cid) nm st nt now d =
      (if sqlite_int cid then None else Some OverflowError, d)"
    by (simp add: upsert_client_def exec_sql_def bind_int_def)
  moreover have "filter (\<lambda>c. c_id c = cid) (clients d) = []"
    using c by (simp add: filter_empty_conv)
  moreover have "filter (\<lambda>c. c_id c \<noteq> cid) (clients d) = clients d"
    using c by (simp add: filter_id_conv)
  moreover have "filter (\<lambda>s. s_id s \<noteq> sid) (services d) = services d"
    using s by (simp add: filter_id_conv)
  ultimately show ?thesis
    by (simp add: delete_client_def delete_service_def exec_sql_def bind_int_def
        delete_from_clients_def delete_from_services_def)
qed

theorem absent_id_is_noop_witness:
  "upsert_client (Some 7) ''Zenith'' ''Bogus'' '''' ''2024-02-01'' acme_db = (None, acme_db) \<and>
   delete_client 7 acme_db = (None, acme_db) \<and>
   delete_service 9 acme_db = (None, acme_db)"
  using absent_id_is_noop [of 7 acme_db 9 "''Zenith''" "''Bogus''" "''''" "''2024-02-01''"]
  by (simp add: acme_db_eq sqlite_int_def)

subsection \<open>Blank client names\<close>

text \<open>
  Claim C2, as stated, fails: \<^verbatim>\<open>upsert_client\<close> does not look at the name. Called
  with no id and a name that is blank after stripping, on the new database, it raises
  nothing and stores a client whose name is empty.
\<close>

theorem upsert_client_blank_name_counterexample:
  "upsert_client None '' '' ''Active'' '''' ''2024-01-01'' (init_db None) =
     (None, \<lparr>clients = [\<lparr>c_id = 1, c_name = '''', c_status = ''Active'', c_notes = Some '''',
                          c_created_at = ''2024-01-01''\<rparr>],
             services = [], clients_seq = 1, services_seq = 0\<rparr>)"
  by (simp add: init_db_def op_defs stmt_defs check_defs str_defs)

text \<open>
  Claim C2, amended. The check is in the client form: when the name is blank after
  stripping, submitting the form (with or without a selected client) reports the blank
  name, does not call \<^verbatim>\<open>upsert_client\<close> and leaves the stored database as it was.
  \<^verbatim>\<open>upsert_client\<close> itself, called without an id with such a name, a status of the
  enumeration and a free row id, appends a client whose name is empty.
\<close>

theorem blank_name_stops_at_form:
  assumes "strip nm = []"
  shows "client_form_submitted selected_id nm st nt now d = (Blank_name, d) \<and>
         (status_check st \<and> fold max (map c_id (clients d)) (clients_seq d) \<noteq> max_rowid \<longrightarrow>
            upsert_client None nm st nt now d =
              (None, d\<lparr>clients := clients d @
                          [\<lparr>c_id = fold max (map c_id (clients d)) (clients_seq d) + 1,
                            c_name = [], c_status = st, c_notes = Some (strip nt),
                            c_created_at = now\<rparr>],
                        clients_seq := fold max (map c_id (clients d)) (clients_seq d) + 1\<rparr>))"
  using assms
  by (simp add: client_form_submitted_def upsert_client_def exec_sql_def insert_client_def
      new_rowid_def Let_def)

theorem blank_name_stops_at_form_witness:
  "client_form_submitted None ''  '' ''Active'' ''n'' ''2024-02-01'' acme_db = (Blank_name, acme_db) \<and>
   upsert_client None ''  '' ''Active'' ''n'' ''2024-02-01'' acme_db =
     (None, acme_db\<lparr>clients := clients acme_db @
                       [\<lparr>c_id = 2, c_name = [], c_status = ''Active'', c_notes = Some ''n'',
                         c_created_at = ''2024-02-01''\<rparr>],
                     clients_seq := 2\<rparr>)"
  using blank_name_stops_at_form [of "''  ''" None "''Active''" "''n''" "''2024-02-01''" acme_db]
  by (simp add: acme_db_eq check_defs str_defs max_rowid_def)

subsection \<open>Updating an existing client\<close>



subsection \<open>Deleting a client\<close>

text \<open>
  Claim C5. In a database whose services all reference a stored client (the foreign key
  of the schema), \<^verbatim>\<open>delete_client\<close> with a signed 64-bit id raises nothing and leaves
  exactly the client rows with another id and exactly the service rows with another
  \<^verbatim>\<open>client_id\<close>, in their order; nothing else changes. When the stored client ids are
  64-bit integers, as SQLite's are, the stored rows afterwards are those for every id:
  an id outside the range raises \<^verbatim>\<open>OverflowError\<close>, names no row and removes none.
\<close>

theorem delete_client_cascade:
  assumes "\<forall>s \<in> set (services d). s_client_id s \<in> set (map c_id (clients d))"
  shows "(sqlite_int cid \<longrightarrow>
            delete_client cid d =
              (None, d\<lparr>clients := filter (\<lambda>c. c_id c \<noteq> cid) (clients d),
                        services := filter (\<lambda>s. s_client_id s \<noteq> cid) (services d)\<rparr>)) \<and>
         ((\<forall>c \<in> set (clients d). sqlite_int (c_id c)) \<longrightarrow>
            delete_client cid d =
              (if sqlite_int cid then None else Some OverflowError,
               d\<lparr>clients := filter (\<lambda>c. c_id c \<noteq> cid) (clients d),
                 services := filter (\<lambda>s. s_client_id s \<noteq> cid) (services d)\<rparr>))"
proof -
  let ?rest = "d\<lparr>clients := filter (\<lambda>c. c_id c \<noteq> cid) (clients d),
                 services := filter (\<lambda>s. s_client_id s \<noteq> cid) (services d)\<rparr>"
  have "filter (\<lambda>s. s_client_id s \<notin> set (map c_id (filter (\<lambda>c. c_id c = cid) (clients d))))
          (services d) = filter (\<lambda>s. s_client_id s \<noteq> cid) (services d)"
    using assms by (intro filter_cong refl) auto
  then have inr: "sqlite_int cid \<Longrightarrow> delete_client cid d = (None, ?rest)"
    by (simp add: delete_client_def exec_sql_def bind_int_def delete_from_clients_def)
  have out: "delete_client cid d = (Some OverflowError, ?rest)"
    if "\<not> sqlite_int cid" and rng: "\<forall>c \<in> set (clients d). sqlite_int (c_id c)"
  proof -
    have c: "\<forall>c \<in> set (clients d). c_id c \<noteq> cid"
      using that by auto
    have "\<forall>s \<in> set (services d). s_client_id s \<noteq> cid"
    proof
      fix s assume "s \<in> set (services d)"
      then have "s_client_id s \<in> set (map c_id (clients d))" using assms by blast
      then obtain c' where "c' \<in> set (clients d)" "c_id c' = s_client_id s" by auto
      then show "s_client_id s \<noteq> cid" using c by metis
    qed
    then have "filter (\<lambda>s. s_client_id s \<noteq> cid) (services d) = services d"
      by (simp add: filter_id_conv)
    moreover have "filter (\<lambda>c. c_id c \<noteq> cid) (clients d) = clients d"
      using c by (simp add: filter_id_conv)
    ultimately have "?rest = d" by simp
    then show ?thesis
      using that(1) by (simp add: delete_client_def exec_sql_def bind_int_def)
  qed
  show ?thesis using inr out by auto
qed

theorem delete_client_cascade_witness:
  "delete_client 1 portfolio_db =
     (None, portfolio_db\<lparr>
        clients :=
          [\<lparr>c_id = 2, c_name = ''Beta'', c_status = ''Prospect'', c_notes = Some '''',
            c_created_at = ''2024-01-04''\<rparr>,
           \<lparr>c_id = 3, c_name = ''Gamma'', c_status = ''Inactive'', c_notes = Some '''',
            c_created_at = ''2024-01-06''\<rparr>],
        services :=
          [\<lparr>s_id = 3, s_client_id = 2, s_service_name = ''SEO'',
            s_monthly_cost = 30, s_is_active = 1, s_created_at = ''2024-01-05''\<rparr>,
           \<lparr>s_id = 4, s_client_id = 3, s_service_name = ''Audit'',
            s_monthly_cost = 20, s_is_active = 1, s_created_at = ''2024-01-07''\<rparr>]\<rparr>) \<and>
   delete_client 9223372036854775808 portfolio_db = (Some OverflowError, portfolio_db)"
proof -
  have fk: "\<forall>s \<in> set (services portfolio_db).
              s_client_id s \<in> set (map c_id (clients portfolio_db))"
    by (simp add: portfolio_db_eq)
  show ?thesis
    using delete_client_cascade [OF fk, of 1]
      delete_client_cascade [OF fk, of 9223372036854775808]
    by (simp add: portfolio_db_eq sqlite_int_def)
qed

subsection \<open>Bulk updates\<close>

lemma update_rows_char:
  "update_rows edited d =
     (case find (\<lambda>r. \<not> sqlite_int (e_id r) \<or>
                     e_monthly_cost r < 0 \<and> e_id r \<in> set (map s_id (services d))) edited of
        None \<Rightarrow>
          Inr (d\<lparr>services :=
                  fold (\<lambda>r. set_service_fields (strip (e_service_name r)) (e_monthly_cost r)
                              (if e_is_active r then 1 else 0) (e_id r))
                    edited (services d)\<rparr>)
      | Some r \<Rightarrow> Inl (if sqlite_int (e_id r) then IntegrityError else OverflowError))"
proof (induction edited arbitrary: d)
  case Nil
  then show ?case by simp
next
  case (Cons r rs)
  let ?upd = "bind_int (e_id r)
                (update_service (strip (e_service_name r)) (e_monthly_cost r)
                   (if e_is_active r then 1 else 0)) d"
  consider (overflow) "\<not> sqlite_int (e_id r)"
    | (negative) "sqlite_int (e_id r)" "e_monthly_cost r < 0"
        "e_id r \<in> set (map s_id (services d))"
    | (fine) "sqlite_int (e_id r)"
        "\<not> (e_monthly_cost r < 0 \<and> e_id r \<in> set (map s_id (services d)))"
    by blast
  then show ?case
  proof cases
    case overflow
    then have "?upd = Inl OverflowError" by (simp add: bind_int_def)
    with overflow show ?thesis by simp
  next
    case negative
    then have "?upd = Inl IntegrityError"
      by (auto simp: bind_int_def update_service_def monthly_cost_check_def)
    with negative show ?thesis by simp
  next
    case fine
    then have u: "?upd = Inr (d\<lparr>services :=
        set_service_fields (strip (e_service_name r)) (e_monthly_cost r)
          (if e_is_active r then 1 else 0) (e_id r) (services d)\<rparr>)"
      by (force simp: bind_int_def update_service_def monthly_cost_check_def
          is_active_check_def)
    let ?P = "\<lambda>r. \<not> sqlite_int (e_id r) \<or>
                  e_monthly_cost r < 0 \<and> e_id r \<in> set (map s_id (services d))"
    let ?d1 = "d\<lparr>services :=
        set_service_fields (strip (e_service_name r)) (e_monthly_cost r)
          (if e_is_active r then 1 else 0) (e_id r) (services d)\<rparr>"
    have ids: "map s_id (services ?d1) = map s_id (services d)"
      by simp
    have "\<not> ?P r" using fine by blast
    then have f: "find ?P (r # rs) = find ?P rs"
      by (simp only: find.simps if_False)
    have "update_rows (r # rs) d = update_rows rs ?d1"
      by (simp only: update_rows.simps u sum.case)
    also have "\<dots> = (case find ?P rs of
        None \<Rightarrow>
          Inr (d\<lparr>services :=
                  fold (\<lambda>r. set_service_fields (strip (e_service_name r)) (e_monthly_cost r)
                              (if e_is_active r then 1 else 0) (e_id r))
                    (r # rs) (services d)\<rparr>)
      | Some r \<Rightarrow> Inl (if sqlite_int (e_id r) then IntegrityError else OverflowError))"
      unfolding Cons.IH ids by (simp split: option.splits)
    finally show ?thesis
      by (simp only: f)
  qed
qed

text \<open>
  Claim C3, as stated, fails. On the Acme database, a batch whose first row raises the
  cost of Hosting to 120 and whose second row gives Old Plan a negative cost raises at
  the second row, and the stored database is the one before the batch: Hosting still
  costs 100, so the first row's update was not committed.
\<close>

theorem update_services_bulk_partial_counterexample:
  "update_services_bulk
     [\<lparr>e_id = 1, e_service_name = ''Hosting'', e_monthly_cost = 120, e_is_active = True\<rparr>,
      \<lparr>e_id = 2, e_service_name = ''Old Plan'', e_monthly_cost = - 5, e_is_active = False\<rparr>]
     acme_db = (Some IntegrityError, acme_db) \<and>
   map s_monthly_cost (services acme_db) = [100, 50]"
  by (simp add: acme_db_eq update_services_bulk_def stmt_defs check_defs str_defs)

text \<open>
  Claim C3, amended. The rows are processed one at a time, in order, inside one
  transaction that is committed once, after the last row. A row fails when its id is not
  a signed 64-bit integer (\<^verbatim>\<open>OverflowError\<close>) or when it carries a negative cost for the
  id of a stored service (the constraint error). The first failing row ends the batch
  with its error and the stored database is unchanged: no row of the batch is applied,
  neither an earlier nor a later one. When no row fails, nothing is raised and the stored
  services are the result of applying every row in order.
\<close>

theorem update_services_bulk_all_or_nothing:
  "update_services_bulk edited d =
     (case find (\<lambda>r. \<not> sqlite_int (e_id r) \<or>
                     e_monthly_cost r < 0 \<and> e_id r \<in> set (map s_id (services d))) edited of
        None \<Rightarrow>
          (None, d\<lparr>services :=
                  fold (\<lambda>r. set_service_fields (strip (e_service_name r)) (e_monthly_cost r)
                              (if e_is_active r then 1 else 0) (e_id r))
                    edited (services d)\<rparr>)
      | Some r \<Rightarrow> (Some (if sqlite_int (e_id r) then IntegrityError else OverflowError), d))"
  by (simp add: update_services_bulk_def update_rows_char split: option.splits)

theorem update_services_bulk_all_or_nothing_witness:
  "update_services_bulk
     [\<lparr>e_id = 1, e_service_name = '' Hosting+ '', e_monthly_cost = 120, e_is_active = True\<rparr>,
      \<lparr>e_id = 2, e_service_name = ''Old Plan'', e_monthly_cost = 0, e_is_active = True\<rparr>]
     acme_db =
     (None, acme_db\<lparr>services :=
        [\<lparr>s_id = 1, s_client_id = 1, s_service_name = ''Hosting+'',
          s_monthly_cost = 120, s_is_active = 1, s_created_at = ''2024-01-02''\<rparr>,
         \<lparr>s_id = 2, s_client_id = 1, s_service_name = ''Old Plan'',
          s_monthly_cost = 0, s_is_active = 1, s_created_at = ''2024-01-03''\<rparr>]\<rparr>) \<and>
   update_services_bulk
     [\<lparr>e_id = 1, e_service_name = ''Hosting'', e_monthly_cost = 120, e_is_active = True\<rparr>,
      \<lparr>e_id = 9223372036854775808, e_service_name = ''Far'', e_monthly_cost = 1,
        e_is_active = True\<rparr>]
     acme_db = (Some OverflowError, acme_db)"
  using update_services_bulk_all_or_nothing [of
     "[\<lparr>e_id = 1, e_service_name = '' Hosting+ '', e_monthly_cost = 120, e_is_active = True\<rparr>,
      \<lparr>e_id = 2, e_service_name = ''Old Plan'', e_monthly_cost = 0, e_is_active = True\<rparr>]" acme_db]
    update_services_bulk_all_or_nothing [of
     "[\<lparr>e_id = 1, e_service_name = ''Hosting'', e_monthly_cost = 120, e_is_active = True\<rparr>,
      \<lparr>e_id = 9223372036854775808, e_service_name = ''Far'', e_monthly_cost = 1,
        e_is_active = True\<rparr>]" acme_db]
  by (simp add: acme_db_eq set_service_fields_def sqlite_int_def str_defs)

subsection \<open>Non-negative monthly costs\<close>

text \<open>
  Claim C6, as stated, fails for \<^verbatim>\<open>update_services_bulk\<close>: a row with a negative
  cost whose id names no stored service is not rejected. On the Acme database, which has
  no service 9, the batch below raises nothing (and changes nothing).
\<close>

theorem negative_cost_absent_id_counterexample:
  "update_services_bulk
     [\<lparr>e_id = 9, e_service_name = ''Ghost'', e_monthly_cost = - 5, e_is_active = True\<rparr>]
     acme_db = (None, acme_db)"
  by (simp add: acme_db_eq update_services_bulk_def stmt_defs check_defs str_defs)

text \<open>
  Claim C6, amended. In every reachable database every service row has a monthly cost
  of at least 0. There, \<^verbatim>\<open>add_service\<close> with a negative cost raises and the stored
  database is unchanged; \<^verbatim>\<open>update_services_bulk\<close> with a row that carries a negative
  cost for the id of a stored service raises and the stored database is unchanged, and
  what it raises is the constraint error when every id of the batch is a signed 64-bit
  integer.
\<close>

theorem monthly_cost_never_negative:
  assumes "reachable d"
  shows "(\<forall>s \<in> set (services d). 0 \<le> s_monthly_cost s) \<and>
         (cost < 0 \<longrightarrow> (\<exists>e. add_service cid nm cost act now d = (Some e, d))) \<and>
         ((\<exists>r \<in> set edited. e_monthly_cost r < 0 \<and> e_id r \<in> set (map s_id (services d))) \<longrightarrow>
            (\<exists>e. update_services_bulk edited d = (Some e, d)) \<and>
            ((\<forall>r \<in> set edited. sqlite_int (e_id r)) \<longrightarrow>
               update_services_bulk edited d = (Some IntegrityError, d)))"
proof -
  let ?bad = "\<lambda>r. \<not> sqlite_int (e_id r) \<or>
                  e_monthly_cost r < 0 \<and> e_id r \<in> set (map s_id (services d))"
  have "schema_ok d" using assms by (rule reachable_schema_ok)
  then have inv: "\<forall>s \<in> set (services d). 0 \<le> s_monthly_cost s"
    by (simp add: schema_ok_def list_all_iff monthly_cost_check_def)
  have add: "\<exists>e. add_service cid nm cost act now d = (Some e, d)" if "cost < 0"
    using that
    by (auto simp: add_service_def exec_sql_def bind_int_def insert_service_def
        monthly_cost_check_def split: sum.splits)
  have bulk: "(\<exists>e. update_services_bulk edited d = (Some e, d)) \<and>
      ((\<forall>r \<in> set edited. sqlite_int (e_id r)) \<longrightarrow>
         update_services_bulk edited d = (Some IntegrityError, d))"
    if "\<exists>r \<in> set edited. e_monthly_cost r < 0 \<and> e_id r \<in> set (map s_id (services d))"
  proof -
    from that have "find ?bad edited \<noteq> None"
      by (auto simp: find_None_iff)
    then obtain r where r: "find ?bad edited = Some r" by auto
    then have "r \<in> set edited"
      by (auto simp: find_Some_iff)
    with r show ?thesis
      by (auto simp: update_services_bulk_def update_rows_char)
  qed
  show ?thesis using inv add bulk by blast
qed

theorem monthly_cost_never_negative_witness:
  "map s_monthly_cost (services acme_db) = [100, 50] \<and>
   add_service 1 ''  Ads  '' (- 5) True ''2024-02-01'' acme_db = (Some IntegrityError, acme_db) \<and>
   update_services_bulk
     [\<lparr>e_id = 2, e_service_name = ''Old Plan'', e_monthly_cost = - 5, e_is_active = True\<rparr>]
     acme_db = (Some IntegrityError, acme_db)"
  using monthly_cost_never_negative [OF reachable_acme_db, of "- 5" 1 "''  Ads  ''" True
      "''2024-02-01''"
      "[\<lparr>e_id = 2, e_service_name = ''Old Plan'', e_monthly_cost = - 5, e_is_active = True\<rparr>]"]
  by (simp add: acme_db_eq add_service_def exec_sql_def bind_int_def sqlite_int_def
      insert_service_def new_rowid_def max_rowid_def check_defs)

subsection \<open>Client status\<close>




subsection \<open>The query, client by client\<close>

lemma left_join_Cons: "left_join (c # cs) ss = join_rows ss c @ left_join cs ss"
  by (simp add: left_join_def)

lemma left_join_Nil: "left_join [] ss = []"
  by (simp add: left_join_def)

lemma join_rows_keys:
  "\<exists>n. map group_key (join_rows ss c) = replicate (Suc n) (client_key c)"
proof (cases "filter (\<lambda>s. s_client_id s = c_id c) ss")
  case Nil
  then have "map group_key (join_rows ss c) = replicate (Suc 0) (client_key c)"
    by (simp add: join_rows_def group_key_def client_key_def)
  then show ?thesis by blast
next
  case (Cons m ms)
  then have "map group_key (join_rows ss c) = replicate (Suc (length ms)) (client_key c)"
    by (simp add: join_rows_def group_key_def client_key_def map_replicate_const comp_def)
  then show ?thesis by blast
qed

lemma remdups_replicate_append:
  "remdups (replicate (Suc n) x @ ys) = remdups (x # ys)"
  by (induction n) auto

lemma remdups_join_keys:
  "remdups (map group_key (left_join cs ss)) = remdups (map client_key cs)"
proof (induction cs)
  case Nil
  show ?case by (simp add: left_join_Nil)
next
  case (Cons c cs)
  obtain n where n: "map group_key (join_rows ss c) = replicate (Suc n) (client_key c)"
    using join_rows_keys by blast
  have "remdups (map group_key (left_join (c # cs) ss)) =
        remdups (replicate (Suc n) (client_key c) @ map group_key (left_join cs ss))"
    by (simp only: left_join_Cons map_append n)
  also have "\<dots> = remdups (client_key c # map group_key (left_join cs ss))"
    by (rule remdups_replicate_append)
  also have "\<dots> = remdups (map client_key (c # cs))"
  proof -
    have "set (map group_key (left_join cs ss)) = set (map client_key cs)"
      using arg_cong [OF Cons.IH, of set] by simp
    then show ?thesis using Cons.IH by simp
  qed
  finally show ?case .
qed

lemma distinct_client_keys: "distinct (map c_id cs) \<Longrightarrow> distinct (map client_key cs)"
  by (induction cs) (auto simp: client_key_def)

lemma filter_unique_key:
  "distinct (map f xs) \<Longrightarrow> x \<in> set xs \<Longrightarrow> filter (\<lambda>y. f y = f x) xs = [x]"
proof (induction xs)
  case Nil
  then show ?case by simp
next
  case (Cons a xs)
  show ?case
  proof (cases "a = x")
    case True
    have "f x \<notin> set (map f xs)"
      using Cons.prems(1) True by simp
    then have "\<forall>y \<in> set xs. f y \<noteq> f x"
      by (metis imageI set_map)
    then have "filter (\<lambda>y. f y = f x) xs = []"
      by (simp add: filter_empty_conv)
    with True show ?thesis by simp
  next
    case False
    then have "x \<in> set xs" using Cons.prems(2) by simp
    moreover from this have "f a \<noteq> f x" using Cons.prems(1) by auto
    ultimately show ?thesis using Cons by simp
  qed
qed

lemma join_rows_fst: "j \<in> set (join_rows ss c) \<Longrightarrow> fst j = c"
  by (auto simp: join_rows_def split: list.splits)

lemma left_join_fst: "j \<in> set (left_join cs ss) \<Longrightarrow> fst j \<in> set cs"
  by (induction cs) (auto simp: left_join_Nil left_join_Cons dest: join_rows_fst)

lemma group_of_client:
  assumes "distinct (map c_id cs)" and "c \<in> set cs"
  shows "filter (\<lambda>j. group_key j = client_key c) (left_join cs ss) = join_rows ss c"
  using assms
proof (induction cs)
  case Nil
  then show ?case by simp
next
  case (Cons a cs)
  have keys: "\<forall>j \<in> set (join_rows ss a). group_key j = client_key a"
    by (auto simp: group_key_def client_key_def dest: join_rows_fst)
  show ?case
  proof (cases "a = c")
    case True
    have "\<forall>j \<in> set (left_join cs ss). c_id (fst j) \<noteq> c_id c"
    proof
      fix j assume "j \<in> set (left_join cs ss)"
      then have "fst j \<in> set cs"
        by (rule left_join_fst)
      moreover have "c_id c \<notin> set (map c_id cs)"
        using Cons.prems(1) True by simp
      ultimately show "c_id (fst j) \<noteq> c_id c"
        by (metis imageI set_map)
    qed
    then have "filter (\<lambda>j. group_key j = client_key c) (left_join cs ss) = []"
      by (auto simp: filter_empty_conv group_key_def client_key_def)
    moreover have "filter (\<lambda>j. group_key j = client_key c) (join_rows ss a) = join_rows ss a"
      using keys True by (simp add: filter_id_conv)
    ultimately show ?thesis using True by (simp add: left_join_Cons)
  next
    case False
    then have c: "c \<in> set cs" using Cons.prems(2) by simp
    then have "c_id a \<noteq> c_id c" using Cons.prems(1) by auto
    then have "filter (\<lambda>j. group_key j = client_key c) (join_rows ss a) = []"
      using keys by (auto simp: filter_empty_conv client_key_def)
    then show ?thesis using Cons c by (simp add: left_join_Cons)
  qed
qed

lemma coalesce_sql_sum: "coalesce (sql_sum xs) 0 = sum_list xs"
  by (cases xs) (simp_all add: coalesce_def sql_sum_def)

lemma sum_case_active:
  "sum_list (map (\<lambda>s. case_active (Some s)) ms) =
   sum_list (map s_monthly_cost (filter (\<lambda>s. s_is_active s = 1) ms))"
  by (induction ms) (simp_all add: case_active_def)

lemma join_rows_sum:
  "sum_list (map (\<lambda>j. case_active (snd j)) (join_rows ss c)) = active_revenue ss (c_id c)"
proof (cases "filter (\<lambda>s. s_client_id s = c_id c) ss")
  case Nil
  then have "filter (\<lambda>s. s_client_id s = c_id c \<and> s_is_active s = 1) ss = []"
    by (auto simp: filter_empty_conv)
  with Nil show ?thesis
    by (simp add: join_rows_def active_revenue_def case_active_def)
next
  case (Cons m ms)
  have "sum_list (map (\<lambda>j. case_active (snd j)) (join_rows ss c)) =
        sum_list (map (\<lambda>s. case_active (Some s)) (filter (\<lambda>s. s_client_id s = c_id c) ss))"
    using Cons by (simp add: join_rows_def comp_def)
  also have "\<dots> = active_revenue ss (c_id c)"
    by (simp add: sum_case_active active_revenue_def conj_commute)
  finally show ?thesis .
qed

lemma aggregate_client:
  assumes "distinct (map c_id cs)" and "c \<in> set cs"
  shows "aggregate (left_join cs ss) (client_key c) = client_row ss c"
  using group_of_client [OF assms, of ss]
  by (simp add: aggregate_def client_row_def coalesce_sql_sum join_rows_sum client_key_def)

lemma breakdown_by_client:
  assumes "distinct (map c_id (clients d))"
  shows "client_monthly_revenue_breakdown d =
           sort_key (\<lambda>r. (b_status r, b_name r)) (map (client_row (services d)) (clients d))"
proof -
  have rows: "map (aggregate (left_join (clients d) (services d))) (map client_key (clients d)) =
        map (client_row (services d)) (clients d)"
    unfolding map_map comp_def
    by (rule map_cong) (simp_all add: aggregate_client [OF assms])
  have keys: "remdups (map group_key (left_join (clients d) (services d))) =
        map client_key (clients d)"
    using distinct_client_keys [OF assms] by (simp add: remdups_join_keys)
  show ?thesis
    by (simp only: client_monthly_revenue_breakdown_def Let_def keys rows)
qed

lemma breakdown_portfolio_db:
  "client_monthly_revenue_breakdown portfolio_db =
     [\<lparr>b_client_id = 1, b_name = ''Acme'', b_status = ''Active'', b_monthly_revenue = 100\<rparr>,
      \<lparr>b_client_id = 3, b_name = ''Gamma'', b_status = ''Inactive'', b_monthly_revenue = 20\<rparr>,
      \<lparr>b_client_id = 2, b_name = ''Beta'', b_status = ''Prospect'', b_monthly_revenue = 30\<rparr>]"
  by (simp add: portfolio_db_eq client_monthly_revenue_breakdown_def left_join_def join_rows_def
      aggregate_def client_key_def group_key_def sql_sum_def coalesce_def case_active_def
      less_eq_prod_def less_char_def less_eq_char_def)

lemma totals_portfolio_db: "totals_for_dashboard portfolio_db = (100, 30, 130, 20)"
  by (simp add: totals_for_dashboard_def breakdown_portfolio_db status_sum_def)


lemma status_disjoint:
  "sum_list (map b_monthly_revenue
     (filter (\<lambda>r. b_status r = ''Active'' \<or> b_status r = ''Prospect'') df)) =
   status_sum ''Active'' df + status_sum ''Prospect'' df"
  by (induction df) (auto simp: status_sum_def)


subsection \<open>Dashboard totals\<close>

text \<open>
  Claim C4. Of the four values \<^verbatim>\<open>totals_for_dashboard\<close> returns, the total potential
  is the active plus the prospect MRR, where the active, prospect and inactive MRR are
  the sums of \<^verbatim>\<open>monthly_revenue\<close> over the breakdown rows with status Active, Prospect
  and Inactive; so the total potential is the sum over the rows whose status is Active
  or Prospect, and no row with status Inactive contributes to it.
\<close>

theorem total_potential_is_active_plus_prospect:
  assumes "totals_for_dashboard d = (active_mrr, prospect_mrr, total_potential, inactive_mrr)"
  shows "total_potential = active_mrr + prospect_mrr \<and>
     active_mrr = sum_list (map b_monthly_revenue
           (filter (\<lambda>r. b_status r = ''Active'') (client_monthly_revenue_breakdown d))) \<and>
     prospect_mrr = sum_list (map b_monthly_revenue
           (filter (\<lambda>r. b_status r = ''Prospect'') (client_monthly_revenue_breakdown d))) \<and>
     inactive_mrr = sum_list (map b_monthly_revenue
           (filter (\<lambda>r. b_status r = ''Inactive'') (client_monthly_revenue_breakdown d))) \<and>
     total_potential = sum_list (map b_monthly_revenue
           (filter (\<lambda>r. b_status r = ''Active'' \<or> b_status r = ''Prospect'')
              (client_monthly_revenue_breakdown d)))"
  using assms
  by (auto simp: totals_for_dashboard_def Let_def status_disjoint) (simp_all add: status_sum_def)

theorem total_potential_is_active_plus_prospect_witness:
  "totals_for_dashboard portfolio_db = (100, 30, 130, 20) \<and>
   sum_list (map b_monthly_revenue
     (filter (\<lambda>r. b_status r = ''Active'' \<or> b_status r = ''Prospect'')
        (client_monthly_revenue_breakdown portfolio_db))) = 130 \<and>
   sum_list (map b_monthly_revenue
     (filter (\<lambda>r. b_status r = ''Inactive'') (client_monthly_revenue_breakdown portfolio_db))) = 20"
  using total_potential_is_active_plus_prospect [OF totals_portfolio_db]
  by (simp add: totals_portfolio_db)

subsection \<open>The three partitions and the sum over all rows\<close>

lemma binary64_of_decimals:
  "f64_round (1999 / 100) = Some (5626684784446013 / 281474976710656) \<and>
   f64_round (1597 / 100) = Some (8990310756138353 / 562949953421312) \<and>
   f64_round (117 / 100) = Some (658651445502935 / 562949953421312) \<and>
   f64_round (1 / 10) = Some (3602879701896397 / 36028797018963968)"
  by code_simp



lemma f64_sum_single: "f64_round x = Some x \<Longrightarrow> f64_sum [x] = Some x"
  by (simp add: f64_sum_def f64_add_def)






subsection \<open>One breakdown row per client\<close>

text \<open>
  Claim C1. In a database whose client ids are distinct (the primary key), the breakdown
  holds exactly one row with the id of any stored client; that row carries the client's
  name and status, and its monthly revenue is the sum of \<^verbatim>\<open>monthly_cost\<close> over exactly
  the services whose \<^verbatim>\<open>client_id\<close> is the client's id and whose \<^verbatim>\<open>is_active\<close> is 1,
  which is 0 when there is no such service. The breakdown has as many rows as there are
  clients.
\<close>

theorem breakdown_one_row_per_client:
  assumes "distinct (map c_id (clients d))" and "c \<in> set (clients d)"
  shows "filter (\<lambda>r. b_client_id r = c_id c) (client_monthly_revenue_breakdown d) =
           [\<lparr>b_client_id = c_id c, b_name = c_name c, b_status = c_status c,
             b_monthly_revenue =
               sum_list (map s_monthly_cost
                 (filter (\<lambda>s. s_client_id s = c_id c \<and> s_is_active s = 1) (services d)))\<rparr>] \<and>
         (filter (\<lambda>s. s_client_id s = c_id c \<and> s_is_active s = 1) (services d) = [] \<longrightarrow>
            map b_monthly_revenue
              (filter (\<lambda>r. b_client_id r = c_id c) (client_monthly_revenue_breakdown d)) = [0]) \<and>
         length (client_monthly_revenue_breakdown d) = length (clients d)"
proof -
  let ?ord = "\<lambda>r. (b_status r, b_name r)"
  have "filter (\<lambda>r. b_client_id r = c_id c) (client_monthly_revenue_breakdown d) =
        sort_key ?ord (filter (\<lambda>r. b_client_id r = c_id c)
          (map (client_row (services d)) (clients d)))"
    by (simp only: breakdown_by_client [OF assms(1)] filter_sort)
  also have "filter (\<lambda>r. b_client_id r = c_id c) (map (client_row (services d)) (clients d)) =
        map (client_row (services d)) (filter (\<lambda>x. c_id x = c_id c) (clients d))"
    by (simp add: filter_map comp_def client_row_def)
  also have "filter (\<lambda>x. c_id x = c_id c) (clients d) = [c]"
    using assms by (rule filter_unique_key)
  finally have one: "filter (\<lambda>r. b_client_id r = c_id c) (client_monthly_revenue_breakdown d) =
      [client_row (services d) c]"
    by simp
  have len: "length (client_monthly_revenue_breakdown d) = length (clients d)"
    by (simp add: breakdown_by_client [OF assms(1)])
  show ?thesis
    by (simp add: one len client_row_def active_revenue_def)
qed

theorem breakdown_one_row_per_client_witness:
  "filter (\<lambda>r. b_client_id r = 1) (client_monthly_revenue_breakdown portfolio_db) =
     [\<lparr>b_client_id = 1, b_name = ''Acme'', b_status = ''Active'', b_monthly_revenue = 100\<rparr>] \<and>
   length (client_monthly_revenue_breakdown portfolio_db) = 3"
  using breakdown_one_row_per_client [of portfolio_db
      "\<lparr>c_id = 1, c_name = ''Acme'', c_status = ''Active'', c_notes = Some '''',
        c_created_at = ''2024-01-01''\<rparr>"]
  by (simp add: portfolio_db_eq)

end
